theory Spec2Isabelle
  imports Complex_Main "HOL-Library.Sublist"
begin

section \<open>Values, exceptions and the library primitives\<close>

text \<open>
  The beat service (\<^verbatim>\<open>src/backend/beat_service/server.py\<close>) computes with numpy
  float64 arrays and numpy integer arrays. Here a float is a \<^typ>\<open>real\<close> (no
  rounding error, no \<^verbatim>\<open>inf\<close>, no \<^verbatim>\<open>nan\<close>), an integer is an \<^typ>\<open>int\<close>
  (no 64-bit overflow) and an array is a list.

  Exceptions are values. \<open>IndexError\<close> is what numpy raises for an index outside
  \<open>[-n, n)\<close>. numpy does not raise on a floating-point division by zero or on the
  mean of an empty array: it warns and yields \<^verbatim>\<open>inf\<close> or \<^verbatim>\<open>nan\<close>. Since
  a \<^typ>\<open>real\<close> can be neither, the divisions and means that the scorer itself
  performs have the outcome \<open>FloatingPointError\<close> there (numpy's name for it under
  \<^verbatim>\<open>np.seterr(all='raise')\<close>), so that its absence can be stated and proved.
  \<open>ProviderError\<close> is any exception raised inside librosa's decoding, onset and beat
  tracking code, with its message.
\<close>

datatype exn = IndexError | FloatingPointError | ProviderError string

definition np_divide :: "real \<Rightarrow> real \<Rightarrow> exn + real" where
  "np_divide a b = (if b = 0 then Inl FloatingPointError else Inr (a / b))"

definition np_mean :: "real list \<Rightarrow> exn + real" where
  "np_mean xs = np_divide (sum_list xs) (real (length xs))"

text \<open>
  \<^verbatim>\<open>np.std\<close> is the population standard deviation (\<^verbatim>\<open>ddof=0\<close>): the
  square root of the mean of \<^verbatim>\<open>abs(x - mean)**2\<close>. The real square root is the
  one function here that the simplifier evaluates only at perfect squares.
\<close>

definition np_std :: "real list \<Rightarrow> exn + real" where
  "np_std xs =
     (case np_mean xs of
        Inl e \<Rightarrow> Inl e
      | Inr m \<Rightarrow>
          (case np_mean (map (\<lambda>x. \<bar>x - m\<bar> ^ 2) xs) of
             Inl e \<Rightarrow> Inl e
           | Inr v \<Rightarrow> Inr (sqrt v)))"

fun np_diff :: "real list \<Rightarrow> real list" where
  "np_diff (x # y # xs) = (y - x) # np_diff (y # xs)"
| "np_diff xs = []"

text \<open>
  Indexing an array with one integer: a negative index counts from the end, an index
  outside \<open>[-n, n)\<close> raises. \<open>np_take a is\<close> is \<^verbatim>\<open>a[is]\<close> for an integer array
  \<open>is\<close>.
\<close>

definition np_index :: "real list \<Rightarrow> int \<Rightarrow> exn + real" where
  "np_index a i =
     (let n = int (length a)
      in if 0 \<le> i \<and> i < n then Inr (a ! nat i)
         else if - n \<le> i \<and> i < 0 then Inr (a ! nat (n + i))
         else Inl IndexError)"

fun np_take :: "real list \<Rightarrow> int list \<Rightarrow> exn + real list" where
  "np_take a [] = Inr []"
| "np_take a (i # is) =
     (case np_index a i of
        Inl e \<Rightarrow> Inl e
      | Inr v \<Rightarrow> (case np_take a is of Inl e \<Rightarrow> Inl e | Inr vs \<Rightarrow> Inr (v # vs)))"

text \<open>
  Modelled from the spec: \<^verbatim>\<open>librosa.frames_to_time\<close> is library code, not part of
  the repository; the spec gives it as
  \<open>time = frame_index * hop_length / sample_rate\<close>. For a zero sample rate the
  library yields \<^verbatim>\<open>inf\<close> and \<^verbatim>\<open>nan\<close> where this formula has 0 (in HOL
  \<open>x / 0 = 0\<close>); of such times the scorer only asks whether their mean gap is
  positive, which it is in neither reading. What is proved below about the times
  that the downbeat estimator returns is for a sample rate other than zero.
\<close>

definition frame_time :: "int \<Rightarrow> int \<Rightarrow> int \<Rightarrow> real" where
  "frame_time sr hop_length f = real_of_int (f * hop_length) / real_of_int sr"

definition frames_to_time :: "int list \<Rightarrow> int \<Rightarrow> int \<Rightarrow> real list" where
  "frames_to_time frames sr hop_length = map (frame_time sr hop_length) frames"

text \<open>
  Python's \<^verbatim>\<open>round(x, n)\<close>: the nearest multiple of \<open>10\<^sup>-\<^sup>n\<close>, a tie going to
  the even one.
\<close>

definition round_half_even :: "real \<Rightarrow> int" where
  "round_half_even x =
     (let f = \<lfloor>x\<rfloor>; d = x - of_int f
      in if d < 1 / 2 then f
         else if 1 / 2 < d then f + 1
         else if even f then f else f + 1)"

definition py_round :: "real \<Rightarrow> nat \<Rightarrow> real" where
  "py_round x n = of_int (round_half_even (x * 10 ^ n)) / 10 ^ n"

text \<open>
  \<^verbatim>\<open>range(start, stop, step)\<close> for a positive step (the source only uses step 4;
  Python raises \<^verbatim>\<open>ValueError\<close> for step 0, which is the empty list here).
\<close>

function py_range :: "nat \<Rightarrow> nat \<Rightarrow> nat \<Rightarrow> nat list" where
  "py_range start stop step =
     (if step = 0 \<or> stop \<le> start then []
      else start # py_range (start + step) stop step)"
  by pat_completeness auto
termination
  by (relation "measure (\<lambda>(start, stop, step). stop - start)") auto

declare py_range.simps [simp del]

section \<open>The confidence scorer\<close>

text \<open>
  Line 40 of the source,
  \<^verbatim>\<open>beat_strengths = onset_env[beat_frames[beat_frames < len(onset_env)]]\<close>:
  the mask keeps the frames below the length of the curve, the lookup is numpy's.
\<close>

definition bounds_filter :: "real list \<Rightarrow> int list \<Rightarrow> int list" where
  "bounds_filter onset_env beat_frames =
     filter (\<lambda>f. f < int (length onset_env)) beat_frames"

definition beat_strengths_of :: "real list \<Rightarrow> int list \<Rightarrow> exn + real list" where
  "beat_strengths_of onset_env beat_frames =
     np_take onset_env (bounds_filter onset_env beat_frames)"

text \<open>
  Lines 56 to 61: the coefficient of variation of the gaps between the beat times.
\<close>

definition interval_cv_of :: "real list \<Rightarrow> exn + real" where
  "interval_cv_of beat_times =
     (if 1 < length beat_times then
        (let intervals = np_diff beat_times
         in case np_mean intervals of
              Inl e \<Rightarrow> Inl e
            | Inr mean_interval \<Rightarrow>
                if 0 < mean_interval then
                  (case np_std intervals of
                     Inl e \<Rightarrow> Inl e
                   | Inr std_interval \<Rightarrow> np_divide std_interval mean_interval)
                else Inr 1)
      else Inr 1)"

definition combine :: "real \<Rightarrow> real \<Rightarrow> real" where
  "combine cv interval_cv =
     (let strength_confidence = max 0.2 (min 1 (1 - cv));
          interval_confidence = max 0.2 (min 1 (1 - interval_cv));
          confidence = strength_confidence * 0.4 + interval_confidence * 0.6
      in py_round confidence 3)"

definition compute_confidence :: "real list \<Rightarrow> int list \<Rightarrow> int \<Rightarrow> int \<Rightarrow> exn + real" where
  "compute_confidence onset_env beat_frames sr hop_length =
     (if length beat_frames < 4 then Inr 0.3
      else
        (case beat_strengths_of onset_env beat_frames of
           Inl e \<Rightarrow> Inl e
         | Inr beat_strengths \<Rightarrow>
             if length beat_strengths < 2 then Inr 0.4
             else
               (case np_mean beat_strengths of
                  Inl e \<Rightarrow> Inl e
                | Inr mean_strength \<Rightarrow>
                    (case np_std beat_strengths of
                       Inl e \<Rightarrow> Inl e
                     | Inr std_strength \<Rightarrow>
                         if mean_strength = 0 then Inr 0.3
                         else
                           (case np_divide std_strength mean_strength of
                              Inl e \<Rightarrow> Inl e
                            | Inr cv \<Rightarrow>
                                (let beat_times = frames_to_time beat_frames sr hop_length
                                 in case interval_cv_of beat_times of
                                      Inl e \<Rightarrow> Inl e
                                    | Inr interval_cv \<Rightarrow>
                                        Inr (combine cv interval_cv)))))))"

section \<open>The confidence scorer over a floating-point arithmetic\<close>

text \<open>
  The same lines 36 to 68 with the arithmetic left open, for the claim that is about
  the exact value returned. A float is still a real number (the finite floats are),
  but the result of an operation is rounded: \<open>fl\<close> takes the exact result to the
  format, so that the product of two floats \<open>a\<close> and \<open>b\<close> is \<open>fl (a * b)\<close> and the
  literal \<^verbatim>\<open>0.4\<close> is \<open>fl 0.4\<close>. \<open>fl_mean\<close>, \<open>fl_std\<close> and \<open>fl_round\<close> are
  \<^verbatim>\<open>np.mean\<close>, \<^verbatim>\<open>np.std\<close> and \<^verbatim>\<open>round\<close>, whose internal operations the
  source does not fix. Comparisons, \<^verbatim>\<open>min\<close> and \<^verbatim>\<open>max\<close> do not round, and
  \<^verbatim>\<open>1.0\<close> is a float. \<open>exact\<close> is the arithmetic without rounding error: with it
  the scorer is \<open>compute_confidence\<close> above (\<open>compute_confidence_fl_exact\<close> below).
\<close>

record float_arith =
  fl :: "real \<Rightarrow> real"
  fl_mean :: "real list \<Rightarrow> real"
  fl_std :: "real list \<Rightarrow> real"
  fl_round :: "real \<Rightarrow> nat \<Rightarrow> real"

definition exact :: float_arith where
  "exact =
     \<lparr>fl = (\<lambda>x. x),
      fl_mean = (\<lambda>xs. sum_list xs / real (length xs)),
      fl_std = (\<lambda>xs. sqrt (sum_list (map (\<lambda>x. \<bar>x - sum_list xs / real (length xs)\<bar> ^ 2) xs)
                            / real (length xs))),
      fl_round = py_round\<rparr>"

definition np_divide_fl :: "float_arith \<Rightarrow> real \<Rightarrow> real \<Rightarrow> exn + real" where
  "np_divide_fl A a b = (if b = 0 then Inl FloatingPointError else Inr (fl A (a / b)))"

definition np_mean_fl :: "float_arith \<Rightarrow> real list \<Rightarrow> exn + real" where
  "np_mean_fl A xs = (if xs = [] then Inl FloatingPointError else Inr (fl_mean A xs))"

definition np_std_fl :: "float_arith \<Rightarrow> real list \<Rightarrow> exn + real" where
  "np_std_fl A xs = (if xs = [] then Inl FloatingPointError else Inr (fl_std A xs))"

fun np_diff_fl :: "float_arith \<Rightarrow> real list \<Rightarrow> real list" where
  "np_diff_fl A (x # y # xs) = fl A (y - x) # np_diff_fl A (y # xs)"
| "np_diff_fl A xs = []"

text \<open>
  Modelled from the spec: \<^verbatim>\<open>librosa.frames_to_time\<close>, as above, with the
  quotient rounded.
\<close>

definition frames_to_time_fl :: "float_arith \<Rightarrow> int list \<Rightarrow> int \<Rightarrow> int \<Rightarrow> real list" where
  "frames_to_time_fl A frames sr hop_length =
     map (\<lambda>f. fl A (real_of_int (f * hop_length) / real_of_int sr)) frames"

definition interval_cv_of_fl :: "float_arith \<Rightarrow> real list \<Rightarrow> exn + real" where
  "interval_cv_of_fl A beat_times =
     (if 1 < length beat_times then
        (let intervals = np_diff_fl A beat_times
         in case np_mean_fl A intervals of
              Inl e \<Rightarrow> Inl e
            | Inr mean_interval \<Rightarrow>
                if 0 < mean_interval then
                  (case np_std_fl A intervals of
                     Inl e \<Rightarrow> Inl e
                   | Inr std_interval \<Rightarrow> np_divide_fl A std_interval mean_interval)
                else Inr 1)
      else Inr 1)"

definition combine_fl :: "float_arith \<Rightarrow> real \<Rightarrow> real \<Rightarrow> real" where
  "combine_fl A cv interval_cv =
     (let strength_confidence = max (fl A 0.2) (min 1 (fl A (1 - cv)));
          interval_confidence = max (fl A 0.2) (min 1 (fl A (1 - interval_cv)));
          confidence = fl A (fl A (strength_confidence * fl A 0.4)
                             + fl A (interval_confidence * fl A 0.6))
      in fl_round A confidence 3)"

definition compute_confidence_fl ::
  "float_arith \<Rightarrow> real list \<Rightarrow> int list \<Rightarrow> int \<Rightarrow> int \<Rightarrow> exn + real" where
  "compute_confidence_fl A onset_env beat_frames sr hop_length =
     (if length beat_frames < 4 then Inr (fl A 0.3)
      else
        (case beat_strengths_of onset_env beat_frames of
           Inl e \<Rightarrow> Inl e
         | Inr beat_strengths \<Rightarrow>
             if length beat_strengths < 2 then Inr (fl A 0.4)
             else
               (case np_mean_fl A beat_strengths of
                  Inl e \<Rightarrow> Inl e
                | Inr mean_strength \<Rightarrow>
                    (case np_std_fl A beat_strengths of
                       Inl e \<Rightarrow> Inl e
                     | Inr std_strength \<Rightarrow>
                         if mean_strength = 0 then Inr (fl A 0.3)
                         else
                           (case np_divide_fl A std_strength mean_strength of
                              Inl e \<Rightarrow> Inl e
                            | Inr cv \<Rightarrow>
                                (let beat_times = frames_to_time_fl A beat_frames sr hop_length
                                 in case interval_cv_of_fl A beat_times of
                                      Inl e \<Rightarrow> Inl e
                                    | Inr interval_cv \<Rightarrow>
                                        Inr (combine_fl A cv interval_cv)))))))"

section \<open>The downbeat estimator\<close>

text \<open>
  Line 77 returns \<^verbatim>\<open>beats[:1].tolist()\<close>: the first element of the frame array
  itself, an integer, with no conversion to seconds. The result is a list of Python
  numbers; the integer is embedded in the reals.
\<close>

definition estimate_downbeats :: "int list \<Rightarrow> real \<Rightarrow> int \<Rightarrow> int \<Rightarrow> real list" where
  "estimate_downbeats beats bpm sr hop_length =
     (if length beats < 4 then
        (if 0 < length beats then map real_of_int (take 1 beats) else [])
      else
        (let beat_times = frames_to_time beats sr hop_length;
             downbeat_indices = py_range 0 (length beat_times) 4
         in map (\<lambda>i. beat_times ! i)
              (filter (\<lambda>i. i < length beat_times) downbeat_indices)))"

section \<open>The orchestrator and the request boundary\<close>

text \<open>
  What the provider (librosa) hands to the orchestrator: the decoded mono waveform,
  the onset-strength curve, the raw tempo and the beat frames. The raw tempo is a
  numpy scalar or a one-dimensional array, depending on the librosa version.
\<close>

datatype tempo_shape = Scalar real | Array "real list"

record provider_result =
  p_y :: "real list"
  p_onset_env :: "real list"
  p_tempo :: tempo_shape
  p_beat_frames :: "int list"

record BeatAnalysisResponse =
  bpm :: real
  confidence :: real
  beats :: "real list"
  downbeats :: "real list"
  duration :: real

text \<open>
  Modelled from the spec: \<^verbatim>\<open>librosa.get_duration\<close> is library code; the spec
  gives the duration as waveform length / sample rate. The orchestrator calls it with
  the constant sample rate 22050.
\<close>

definition get_duration :: "real list \<Rightarrow> int \<Rightarrow> real" where
  "get_duration y sr = real (length y) / real_of_int sr"

text \<open>
  Line 129,
  \<^verbatim>\<open>bpm = float(tempo[0]) if hasattr(tempo, '__len__') else float(tempo)\<close>.
  An array has \<^verbatim>\<open>__len__\<close>, a numpy scalar has not; \<^verbatim>\<open>tempo[0]\<close> raises on an
  empty array.
\<close>

definition tempo_to_bpm :: "tempo_shape \<Rightarrow> exn + real" where
  "tempo_to_bpm t =
     (case t of
        Scalar v \<Rightarrow> Inr v
      | Array vs \<Rightarrow> (case vs of [] \<Rightarrow> Inl IndexError | v # _ \<Rightarrow> Inr v))"

text \<open>
  The body of the \<^verbatim>\<open>try\<close> block of \<open>analyze_audio\<close> (lines 109 to 146). The
  argument is the outcome of the four librosa calls: \<open>Inl\<close> when one of them raised.
\<close>

definition analysis :: "exn + provider_result \<Rightarrow> exn + BeatAnalysisResponse" where
  "analysis provider =
     (case provider of
        Inl e \<Rightarrow> Inl e
      | Inr p \<Rightarrow>
          (let sr = 22050;
               duration' = get_duration (p_y p) sr;
               hop_length = 512
           in case tempo_to_bpm (p_tempo p) of
                Inl e \<Rightarrow> Inl e
              | Inr bpm' \<Rightarrow>
                  (let beat_times = frames_to_time (p_beat_frames p) sr hop_length
                   in case compute_confidence (p_onset_env p) (p_beat_frames p) sr hop_length of
                        Inl e \<Rightarrow> Inl e
                      | Inr confidence' \<Rightarrow>
                          (let downbeats' = estimate_downbeats (p_beat_frames p) bpm' sr hop_length
                           in Inr \<lparr>bpm = py_round bpm' 2,
                                   confidence = confidence',
                                   beats = map (\<lambda>t. py_round t 4) beat_times,
                                   downbeats = map (\<lambda>t. py_round t 4) downbeats',
                                   duration = py_round duration' 3\<rparr>))))"

text \<open>
  The endpoint. The file system and \<^verbatim>\<open>pathlib\<close> are outside the program:
  \<open>path_exists\<close> is the answer of \<^verbatim>\<open>audio_path.exists()\<close> and \<open>path_suffix\<close> is
  \<^verbatim>\<open>audio_path.suffix\<close>. \<open>lower\<close> is \<^verbatim>\<open>str.lower\<close> on ASCII text.
\<close>

datatype detail = NotFoundDetail string | UnsupportedDetail string | AnalysisFailed exn

datatype http_exception = HTTPException nat detail

definition upper_to_lower :: "(char \<times> char) list" where
  "upper_to_lower = zip ''ABCDEFGHIJKLMNOPQRSTUVWXYZ'' ''abcdefghijklmnopqrstuvwxyz''"

definition lower_char :: "char \<Rightarrow> char" where
  "lower_char c = (case map_of upper_to_lower c of Some d \<Rightarrow> d | None \<Rightarrow> c)"

definition lower :: "string \<Rightarrow> string" where
  "lower s = map lower_char s"

definition accepted_suffixes :: "string list" where
  "accepted_suffixes = [''.wav'', ''.mp3'', ''.flac'', ''.ogg'', ''.m4a'', ''.aac'']"

definition analyze_audio ::
  "string \<Rightarrow> bool \<Rightarrow> string \<Rightarrow> exn + provider_result \<Rightarrow> http_exception + BeatAnalysisResponse" where
  "analyze_audio audio_path path_exists path_suffix provider =
     (if \<not> path_exists then Inl (HTTPException 404 (NotFoundDetail audio_path))
      else if \<not> (lower path_suffix \<in> set accepted_suffixes) then
        Inl (HTTPException 400 (UnsupportedDetail path_suffix))
      else
        (case analysis provider of
           Inl e \<Rightarrow> Inl (HTTPException 500 (AnalysisFailed e))
         | Inr r \<Rightarrow> Inr r))"

section \<open>The specification's formulas\<close>

text \<open>
  These definitions follow the words of the specification (sections 4.2 and 6), not
  the source; the theorems below compare them with the definitions above.
\<close>

definition spec_clamp :: "real \<Rightarrow> real \<Rightarrow> real \<Rightarrow> real" where
  "spec_clamp x lo hi = max lo (min hi x)"

definition spec_mean :: "real list \<Rightarrow> real" where
  "spec_mean xs = sum_list xs / real (length xs)"

definition spec_stddev :: "real list \<Rightarrow> real" where
  "spec_stddev xs = sqrt (spec_mean (map (\<lambda>x. (x - spec_mean xs) ^ 2) xs))"

text \<open>The successive inter-beat gaps of a sequence of beat times.\<close>

definition spec_gaps :: "real list \<Rightarrow> real list" where
  "spec_gaps ts = map (\<lambda>(a, b). b - a) (zip ts (tl ts))"

text \<open>
  The onset-strength values at the beat frames that lie within the bounds of the
  curve.
\<close>

definition spec_strengths :: "real list \<Rightarrow> int list \<Rightarrow> real list" where
  "spec_strengths onset_curve frames =
     map (\<lambda>f. onset_curve ! nat f)
       (filter (\<lambda>f. 0 \<le> f \<and> f < int (length onset_curve)) frames)"

definition spec_cv_strength :: "real list \<Rightarrow> real" where
  "spec_cv_strength strengths = spec_stddev strengths / spec_mean strengths"

text \<open>
  Taken as 1 when fewer than 2 beat times exist or the mean gap is not positive.
\<close>

definition spec_cv_interval :: "real list \<Rightarrow> real" where
  "spec_cv_interval beat_ts =
     (if length beat_ts < 2 \<or> \<not> 0 < spec_mean (spec_gaps beat_ts) then 1
      else spec_stddev (spec_gaps beat_ts) / spec_mean (spec_gaps beat_ts))"

text \<open>
  The same formulas of section 4.2 over a floating-point arithmetic: every operation
  the specification writes is one rounded operation, in the order it writes them.
\<close>

definition spec_cv_strength_fl :: "float_arith \<Rightarrow> real list \<Rightarrow> real" where
  "spec_cv_strength_fl A strengths = fl A (fl_std A strengths / fl_mean A strengths)"

definition spec_gaps_fl :: "float_arith \<Rightarrow> real list \<Rightarrow> real list" where
  "spec_gaps_fl A ts = map (\<lambda>(a, b). fl A (b - a)) (zip ts (tl ts))"

definition spec_cv_interval_fl :: "float_arith \<Rightarrow> real list \<Rightarrow> real" where
  "spec_cv_interval_fl A beat_ts =
     (if length beat_ts < 2 \<or> \<not> 0 < fl_mean A (spec_gaps_fl A beat_ts) then 1
      else fl A (fl_std A (spec_gaps_fl A beat_ts) / fl_mean A (spec_gaps_fl A beat_ts)))"

definition spec_confidence_fl :: "float_arith \<Rightarrow> real list \<Rightarrow> real list \<Rightarrow> real" where
  "spec_confidence_fl A strengths beat_ts =
     fl_round A
       (fl A (fl A (fl A 0.4 * spec_clamp (fl A (1 - spec_cv_strength_fl A strengths)) (fl A 0.2) 1)
              + fl A (fl A 0.6 * spec_clamp (fl A (1 - spec_cv_interval_fl A beat_ts)) (fl A 0.2) 1)))
       3"

text \<open>
  The accepted extensions of section 6, compared without regard to case.
\<close>

definition spec_extensions :: "string list" where
  "spec_extensions = [''wav'', ''mp3'', ''flac'', ''ogg'', ''m4a'', ''aac'']"

definition same_ignoring_case :: "string \<Rightarrow> string \<Rightarrow> bool" where
  "same_ignoring_case a b = (map lower_char a = map lower_char b)"

definition spec_supported :: "string \<Rightarrow> bool" where
  "spec_supported path_suffix =
     list_ex (\<lambda>e. same_ignoring_case path_suffix (CHR ''.'' # e)) spec_extensions"

section \<open>Facts about the primitives\<close>

lemma round_half_even_ge: "of_int k \<le> x \<Longrightarrow> k \<le> round_half_even x"
proof -
  assume "of_int k \<le> x"
  then have "k \<le> \<lfloor>x\<rfloor>" by (simp add: le_floor_iff)
  then show ?thesis unfolding round_half_even_def Let_def by auto
qed

lemma round_half_even_le: "x \<le> of_int k \<Longrightarrow> round_half_even x \<le> k"
  unfolding round_half_even_def Let_def
  by (auto simp: floor_le_iff)

lemma py_round_range:
  assumes "0.2 \<le> x" "x \<le> 1"
  shows "0.2 \<le> py_round x 3 \<and> py_round x 3 \<le> 1"
proof -
  have "of_int 200 \<le> x * 10 ^ 3" using assms by simp
  then have a: "200 \<le> round_half_even (x * 10 ^ 3)" by (rule round_half_even_ge)
  have "x * 10 ^ 3 \<le> of_int 1000" using assms by simp
  then have b: "round_half_even (x * 10 ^ 3) \<le> 1000" by (rule round_half_even_le)
  from a have "real_of_int 200 \<le> real_of_int (round_half_even (x * 10 ^ 3))" by (simp only: of_int_le_iff)
  moreover from b have "real_of_int (round_half_even (x * 10 ^ 3)) \<le> real_of_int 1000" by (simp only: of_int_le_iff)
  ultimately show ?thesis unfolding py_round_def by (simp add: field_simps)
qed

lemma weighted_range:
  fixes s i :: real
  assumes "0.2 \<le> s" "s \<le> 1" "0.2 \<le> i" "i \<le> 1"
  shows "0.2 \<le> s * 0.4 + i * 0.6" "s * 0.4 + i * 0.6 \<le> 1"
  using assms by simp_all

lemma combine_range: "0.2 \<le> combine cv icv \<and> combine cv icv \<le> 1"
proof -
  let ?s = "max 0.2 (min 1 (1 - cv))" and ?i = "max 0.2 (min 1 (1 - icv))"
  have s: "0.2 \<le> ?s" "?s \<le> 1" by auto
  have i: "0.2 \<le> ?i" "?i \<le> 1" by auto
  have "0.2 \<le> ?s * 0.4 + ?i * 0.6" using s i by (rule weighted_range)
  moreover have "?s * 0.4 + ?i * 0.6 \<le> 1" using s i by (rule weighted_range)
  ultimately show ?thesis unfolding combine_def Let_def by (rule py_round_range)
qed

lemma np_take_total:
  "\<forall>i\<in>set is. - int (length a) \<le> i \<and> i < int (length a) \<Longrightarrow>
     \<exists>vs. np_take a is = Inr vs \<and> length vs = length is"
  by (induction "is") (auto simp: np_index_def Let_def)

lemma np_take_fails:
  "\<exists>i\<in>set is. \<not> (- int (length a) \<le> i \<and> i < int (length a)) \<Longrightarrow>
     np_take a is = Inl IndexError"
  by (induction "is") (auto simp: np_index_def Let_def split: sum.splits)

lemma np_take_length: "np_take a is = Inr vs \<Longrightarrow> length vs = length is"
  by (induction "is" arbitrary: vs) (auto split: sum.splits)

lemma np_mean_nonempty: "xs \<noteq> [] \<Longrightarrow> np_mean xs = Inr (sum_list xs / real (length xs))"
  by (simp add: np_mean_def np_divide_def)

lemma np_std_nonempty:
  "xs \<noteq> [] \<Longrightarrow> \<exists>s. np_std xs = Inr s \<and> 0 \<le> s"
proof -
  assume ne: "xs \<noteq> []"
  obtain m where m: "np_mean xs = Inr m" using np_mean_nonempty[OF ne] by blast
  let ?sq = "map (\<lambda>x. \<bar>x - m\<bar> ^ 2) xs"
  have "?sq \<noteq> []" using ne by simp
  then have v: "np_mean ?sq = Inr (sum_list ?sq / real (length ?sq))" by (rule np_mean_nonempty)
  have "0 \<le> sum_list ?sq" by (rule sum_list_nonneg) auto
  then have "0 \<le> sum_list ?sq / real (length ?sq)" by (rule divide_nonneg_nonneg) simp
  then show ?thesis using m v by (simp add: np_std_def)
qed

lemma length_np_diff: "length (np_diff xs) = length xs - 1"
  by (induction xs rule: np_diff.induct) auto

lemma interval_cv_of_total: "\<exists>v. interval_cv_of ts = Inr v"
proof (cases "1 < length ts")
  case True
  then have ne: "np_diff ts \<noteq> []" using length_np_diff[of ts] by (metis length_0_conv zero_less_diff less_numeral_extra(3))
  obtain s where s: "np_std (np_diff ts) = Inr s" using np_std_nonempty[OF ne] by blast
  show ?thesis using True s by (simp add: interval_cv_of_def Let_def np_mean_nonempty[OF ne] np_divide_def)
next
  case False
  then show ?thesis by (simp add: interval_cv_of_def)
qed

lemma beat_strengths_of_total:
  assumes "\<forall>f\<in>set bf. - int (length onset) \<le> f"
  shows "\<exists>bs. beat_strengths_of onset bf = Inr bs \<and> length bs = length (bounds_filter onset bf)"
  unfolding beat_strengths_of_def
  by (rule np_take_total) (use assms in \<open>auto simp: bounds_filter_def\<close>)

lemma compute_confidence_after_lookup:
  assumes "\<not> length bf < 4" and bs: "beat_strengths_of onset bf = Inr bs"
  shows "\<exists>c. compute_confidence onset bf sr hop = Inr c \<and> 0.2 \<le> c \<and> c \<le> 1"
proof (cases "length bs < 2")
  case True
  with assms have "compute_confidence onset bf sr hop = Inr 0.4"
    by (simp add: compute_confidence_def)
  then show ?thesis by (intro exI[of _ "0.4"]) simp
next
  case False
  then have ne: "bs \<noteq> []" by auto
  obtain s where s: "np_std bs = Inr s" using np_std_nonempty[OF ne] by blast
  obtain icv where icv: "interval_cv_of (map (frame_time sr hop) bf) = Inr icv"
    using interval_cv_of_total by blast
  show ?thesis
  proof (cases "sum_list bs / real (length bs) = 0")
    case True
    with assms False s have "compute_confidence onset bf sr hop = Inr 0.3"
      by (simp add: compute_confidence_def np_mean_nonempty[OF ne])
    then show ?thesis by (intro exI[of _ "0.3"]) simp
  next
    case nz: False
    have "compute_confidence onset bf sr hop = Inr (combine (s / (sum_list bs / real (length bs))) icv)"
      using assms False s nz icv
      by (simp add: compute_confidence_def np_mean_nonempty[OF ne] np_divide_def frames_to_time_def
          Let_def)
    then show ?thesis using combine_range by simp
  qed
qed

lemma compute_confidence_returns:
  assumes idx: "length bf < 4 \<or> (\<forall>f\<in>set bf. - int (length onset) \<le> f)"
  shows "\<exists>c. compute_confidence onset bf sr hop = Inr c \<and> 0.2 \<le> c \<and> c \<le> 1"
proof (cases "length bf < 4")
  case True
  then have "compute_confidence onset bf sr hop = Inr 0.3"
    by (simp add: compute_confidence_def)
  then show ?thesis by (intro exI[of _ "0.3"]) simp
next
  case False
  with idx have "\<forall>f\<in>set bf. - int (length onset) \<le> f" by simp
  then obtain bs where bs: "beat_strengths_of onset bf = Inr bs"
    using beat_strengths_of_total by blast
  from False bs show ?thesis by (rule compute_confidence_after_lookup)
qed

lemma np_mean_spec: "xs \<noteq> [] \<Longrightarrow> np_mean xs = Inr (spec_mean xs)"
  by (simp add: np_mean_nonempty spec_mean_def)

lemma np_std_spec: "xs \<noteq> [] \<Longrightarrow> np_std xs = Inr (spec_stddev xs)"
  by (simp add: np_std_def np_mean_spec spec_stddev_def)

lemma np_diff_spec: "np_diff ts = spec_gaps ts"
  by (induction ts rule: np_diff.induct) (simp_all add: spec_gaps_def)

lemma interval_cv_of_spec: "interval_cv_of ts = Inr (spec_cv_interval ts)"
proof (cases "1 < length ts")
  case True
  then have ne: "np_diff ts \<noteq> []"
    using length_np_diff[of ts] by (metis length_0_conv zero_less_diff less_numeral_extra(3))
  from True have l: "\<not> length ts < 2" by simp
  show ?thesis
  proof (cases "0 < spec_mean (np_diff ts)")
    case True
    then have "spec_mean (np_diff ts) \<noteq> 0" by simp
    with True l \<open>1 < length ts\<close> show ?thesis
      by (simp add: interval_cv_of_def Let_def np_mean_spec[OF ne] np_std_spec[OF ne]
          np_divide_def spec_cv_interval_def np_diff_spec[symmetric])
  next
    case False
    with l \<open>1 < length ts\<close> show ?thesis
      by (simp add: interval_cv_of_def Let_def np_mean_spec[OF ne]
          spec_cv_interval_def np_diff_spec[symmetric])
  qed
next
  case False
  then have "length ts < 2" by simp
  with False show ?thesis by (simp add: interval_cv_of_def spec_cv_interval_def)
qed

lemma np_take_nonneg:
  "\<forall>f\<in>set fs. 0 \<le> f \<Longrightarrow>
     np_take a (filter (\<lambda>f. f < int (length a)) fs) =
       Inr (map (\<lambda>f. a ! nat f) (filter (\<lambda>f. 0 \<le> f \<and> f < int (length a)) fs))"
  by (induction fs) (auto simp: np_index_def Let_def)

lemma compute_confidence_combined:
  assumes "4 \<le> length bf" and bs: "beat_strengths_of onset bf = Inr bs" and "2 \<le> length bs"
    and "spec_mean bs \<noteq> 0"
  shows "compute_confidence onset bf sr hop =
    Inr (combine (spec_stddev bs / spec_mean bs) (spec_cv_interval (map (frame_time sr hop) bf)))"
proof -
  from assms(3) have ne: "bs \<noteq> []" by auto
  from assms show ?thesis
    by (simp add: compute_confidence_def np_mean_spec[OF ne] np_std_spec[OF ne] np_divide_def
        frames_to_time_def interval_cv_of_spec Let_def)
qed

lemma beat_strengths_of_nonneg:
  "\<forall>f\<in>set bf. 0 \<le> f \<Longrightarrow> beat_strengths_of onset bf = Inr (spec_strengths onset bf)"
  unfolding beat_strengths_of_def bounds_filter_def spec_strengths_def by (rule np_take_nonneg)

lemma beat_strengths_of_length:
  "beat_strengths_of onset bf = Inr bs \<Longrightarrow> length bs = length (bounds_filter onset bf)"
  unfolding beat_strengths_of_def by (rule np_take_length)

lemma np_take_error: "np_take a is = Inl e \<Longrightarrow> e = IndexError"
  by (induction "is") (auto simp: np_index_def Let_def split: if_splits sum.splits)

lemma compute_confidence_outcomes:
  shows "compute_confidence onset bf sr hop = Inl IndexError
     \<or> (\<exists>c. compute_confidence onset bf sr hop = Inr c \<and> 0.2 \<le> c \<and> c \<le> 1)"
proof (cases "length bf < 4")
  case True
  then have "length bf < 4 \<or> (\<forall>f\<in>set bf. - int (length onset) \<le> f)" by simp
  from compute_confidence_returns[OF this] show ?thesis by simp
next
  case False
  show ?thesis
  proof (cases "beat_strengths_of onset bf")
    case (Inl e)
    then have "e = IndexError" unfolding beat_strengths_of_def by (rule np_take_error)
    with Inl False show ?thesis by (simp add: compute_confidence_def)
  next
    case (Inr bs)
    from compute_confidence_after_lookup[OF False Inr] show ?thesis by simp
  qed
qed

lemma compute_confidence_raises:
  assumes "4 \<le> length bf" and "\<exists>f\<in>set bf. f < - int (length onset)"
  shows "compute_confidence onset bf sr hop = Inl IndexError"
proof -
  have "\<exists>i\<in>set (bounds_filter onset bf). \<not> (- int (length onset) \<le> i \<and> i < int (length onset))"
    using assms(2) by (auto simp: bounds_filter_def)
  then have "beat_strengths_of onset bf = Inl IndexError"
    unfolding beat_strengths_of_def by (rule np_take_fails)
  with assms(1) show ?thesis by (simp add: compute_confidence_def)
qed

lemma range_count_step:
  fixes stop start :: nat
  assumes "\<not> stop \<le> start"
  shows "(stop - start + 3) div 4 = Suc ((stop - (start + 4) + 3) div 4)"
proof (cases "start + 4 \<le> stop")
  case True
  then have "stop - start + 3 = (stop - (start + 4) + 3) + 4" by simp
  then show ?thesis by (simp only: div_add_self2)
next
  case False
  with assms have "stop - (start + 4) = 0" "4 \<le> stop - start + 3" "stop - start + 3 < 8" by simp_all
  then have "(stop - start + 3) div 4 = 1" "(stop - (start + 4) + 3) div 4 = 0"
    by (simp_all add: div_eq_dividend_iff Euclidean_Rings.div_nat_eqI)
  then show ?thesis by simp
qed

lemma py_range_4: "py_range s n 4 = map (\<lambda>k. s + 4 * k) [0 ..< (n - s + 3) div 4]"
proof (induction s n "4::nat" rule: py_range.induct)
  case (1 start stop)
  show ?case
  proof (cases "stop \<le> start")
    case True
    then show ?thesis by (simp add: py_range.simps)
  next
    case False
    then have "(stop - start + 3) div 4 = Suc ((stop - (start + 4) + 3) div 4)"
      by (rule range_count_step)
    moreover have "py_range start stop 4 = start # py_range (start + 4) stop 4"
      using False by (simp add: py_range.simps)
    ultimately show ?thesis using 1 False
      by (simp add: upt_conv_Cons map_Suc_upt[symmetric] del: upt_Suc)
  qed
qed

lemma downbeat_indices_in_range:
  "filter (\<lambda>i. i < n) (py_range 0 n 4) = map (\<lambda>k. 4 * k) [0 ..< (n + 3) div 4]"
proof -
  have "\<forall>i\<in>set (map (\<lambda>k. 4 * k) [0 ..< (n + 3) div 4]). i < n" by auto
  then show ?thesis by (simp add: py_range_4 del: set_map)
qed

lemma lower_accepted_iff: "lower s \<in> set accepted_suffixes \<longleftrightarrow> spec_supported s"
  by (simp add: accepted_suffixes_def spec_supported_def spec_extensions_def same_ignoring_case_def
      lower_def lower_char_def upper_to_lower_def)

lemma tempo_to_bpm_shapes: "tempo_to_bpm (Scalar t) = Inr t" "tempo_to_bpm (Array [t]) = Inr t"
  by (simp_all add: tempo_to_bpm_def)

lemma analysis_no_floating_point_error: "analysis (Inr p) \<noteq> Inl FloatingPointError"
  using compute_confidence_outcomes[of "p_onset_env p" "p_beat_frames p" 22050 512]
  by (auto simp: analysis_def tempo_to_bpm_def Let_def
      split: sum.splits tempo_shape.splits list.splits)

lemma estimate_downbeats_ge4:
  assumes "4 \<le> length frames"
  shows "estimate_downbeats frames b sr hop =
        map (\<lambda>k. frame_time sr hop (frames ! (4 * k))) [0 ..< (length frames + 3) div 4]"
proof -
  have "\<forall>k\<in>set [0 ..< (length frames + 3) div 4]. 4 * k < length frames" by auto
  then have "map (\<lambda>i. map (frame_time sr hop) frames ! i) (map (\<lambda>k. 4 * k) [0 ..< (length frames + 3) div 4])
      = map (\<lambda>k. frame_time sr hop (frames ! (4 * k))) [0 ..< (length frames + 3) div 4]"
    by simp
  with assms show ?thesis
    by (simp add: estimate_downbeats_def frames_to_time_def downbeat_indices_in_range Let_def
        del: map_map)
qed

lemma every_fourth_subseq:
  "subseq (map (\<lambda>k. xs ! (4 * k)) [0 ..< (length xs + 3) div 4]) xs"
proof (induction "length xs" arbitrary: xs rule: less_induct)
  case less
  show ?case
  proof (cases xs)
    case Nil
    then show ?thesis by simp
  next
    case (Cons x ys)
    let ?zs = "drop 4 xs"
    have cnt: "(length xs + 3) div 4 = Suc ((length ?zs + 3) div 4)"
      using range_count_step[of "length xs" 0] Cons by simp
    have idx: "\<forall>k\<in>set [0 ..< (length ?zs + 3) div 4]. 4 * k < length ?zs" by auto
    have tl: "map (\<lambda>k. xs ! (4 * Suc k)) [0 ..< (length ?zs + 3) div 4] =
        map (\<lambda>k. ?zs ! (4 * k)) [0 ..< (length ?zs + 3) div 4]"
      using idx by (intro map_cong refl) (simp add: add.commute)
    have "map (\<lambda>k. xs ! (4 * k)) [0 ..< (length xs + 3) div 4] =
        x # map (\<lambda>k. ?zs ! (4 * k)) [0 ..< (length ?zs + 3) div 4]"
      unfolding cnt using tl Cons
      by (simp add: upt_conv_Cons map_Suc_upt[symmetric] del: upt_Suc)
    moreover have "subseq (map (\<lambda>k. ?zs ! (4 * k)) [0 ..< (length ?zs + 3) div 4]) ?zs"
      using Cons by (intro less) simp
    moreover have "subseq ?zs ys"
    proof -
      have "suffix (drop 3 ys) ys" by (rule suffix_drop)
      then have "subseq (drop 3 ys) ys" by (rule suffix_imp_subseq)
      with Cons show ?thesis by simp
    qed
    ultimately show ?thesis using Cons by (auto intro: subseq_order.trans)
  qed
qed

lemma analysis_downbeats_subseq:
  assumes "analysis (Inr p) = Inr r" and "p_beat_frames p = [] \<or> 4 \<le> length (p_beat_frames p)"
  shows "subseq (downbeats r) (beats r)"
proof -
  let ?fr = "p_beat_frames p"
  let ?f = "\<lambda>x. py_round (frame_time 22050 512 x) 4"
  from assms(1) obtain b
    where r: "downbeats r = map (\<lambda>t. py_round t 4) (estimate_downbeats ?fr b 22050 512)"
      "beats r = map (\<lambda>t. py_round t 4) (map (frame_time 22050 512) ?fr)"
    by (auto simp: analysis_def frames_to_time_def Let_def split: sum.splits)
  from assms(2) show ?thesis
  proof
    assume "?fr = []"
    with r show ?thesis by (simp add: estimate_downbeats_def)
  next
    assume "4 \<le> length ?fr"
    then have "estimate_downbeats ?fr b 22050 512 =
        map (\<lambda>k. frame_time 22050 512 (?fr ! (4 * k))) [0 ..< (length ?fr + 3) div 4]"
      by (rule estimate_downbeats_ge4)
    then have "downbeats r = map ?f (map (\<lambda>k. ?fr ! (4 * k)) [0 ..< (length ?fr + 3) div 4])"
      using r by simp
    moreover have "beats r = map ?f ?fr" using r by simp
    ultimately show ?thesis using every_fourth_subseq[of ?fr] by (simp only: subseq_map)
  qed
qed

lemma np_diff_fl_spec: "np_diff_fl A ts = spec_gaps_fl A ts"
  by (induction A ts rule: np_diff_fl.induct) (simp_all add: spec_gaps_fl_def)

lemma length_np_diff_fl: "length (np_diff_fl A xs) = length xs - 1"
  by (induction A xs rule: np_diff_fl.induct) auto

lemma interval_cv_of_fl_spec: "interval_cv_of_fl A ts = Inr (spec_cv_interval_fl A ts)"
proof (cases "1 < length ts")
  case True
  then have ne: "np_diff_fl A ts \<noteq> []"
    using length_np_diff_fl[of A ts] by (metis length_0_conv zero_less_diff less_numeral_extra(3))
  from True have l: "\<not> length ts < 2" by simp
  show ?thesis
  proof (cases "0 < fl_mean A (np_diff_fl A ts)")
    case True
    then have "fl_mean A (np_diff_fl A ts) \<noteq> 0" by simp
    with True l ne \<open>1 < length ts\<close> show ?thesis
      by (simp add: interval_cv_of_fl_def Let_def np_mean_fl_def np_std_fl_def np_divide_fl_def
          spec_cv_interval_fl_def np_diff_fl_spec[symmetric])
  next
    case False
    with l ne \<open>1 < length ts\<close> show ?thesis
      by (simp add: interval_cv_of_fl_def Let_def np_mean_fl_def spec_cv_interval_fl_def
          np_diff_fl_spec[symmetric])
  qed
next
  case False
  then have "length ts < 2" by simp
  with False show ?thesis by (simp add: interval_cv_of_fl_def spec_cv_interval_fl_def)
qed

lemma combine_fl_spec:
  "combine_fl A cv icv =
     fl_round A
       (fl A (fl A (fl A 0.4 * spec_clamp (fl A (1 - cv)) (fl A 0.2) 1)
              + fl A (fl A 0.6 * spec_clamp (fl A (1 - icv)) (fl A 0.2) 1)))
       3"
  by (simp add: combine_fl_def spec_clamp_def Let_def mult.commute)

lemma fl_exact: "fl exact x = x"
  by (simp add: exact_def)

lemma np_diff_fl_exact: "np_diff_fl exact ts = np_diff ts"
  by (induction ts rule: np_diff.induct) (simp_all add: exact_def)

lemma np_mean_fl_exact: "np_mean_fl exact xs = np_mean xs"
  by (simp add: np_mean_fl_def np_mean_def np_divide_def exact_def)

lemma np_std_fl_exact: "np_std_fl exact xs = np_std xs"
  by (simp add: np_std_fl_def np_std_def np_mean_def np_divide_def exact_def)

lemma np_divide_fl_exact: "np_divide_fl exact a b = np_divide a b"
  by (simp add: np_divide_fl_def np_divide_def exact_def)

lemma frames_to_time_fl_exact: "frames_to_time_fl exact frames sr hop = frames_to_time frames sr hop"
  by (simp add: frames_to_time_fl_def frames_to_time_def frame_time_def exact_def)

lemma interval_cv_of_fl_exact: "interval_cv_of_fl exact ts = interval_cv_of ts"
  unfolding interval_cv_of_fl_def interval_cv_of_def np_diff_fl_exact np_mean_fl_exact
    np_std_fl_exact np_divide_fl_exact
  by (rule refl)

lemma combine_fl_exact: "combine_fl exact cv icv = combine cv icv"
  by (simp add: combine_fl_def combine_def exact_def)

lemma compute_confidence_fl_exact:
  "compute_confidence_fl exact onset bf sr hop = compute_confidence onset bf sr hop"
  unfolding compute_confidence_fl_def compute_confidence_def np_mean_fl_exact np_std_fl_exact
    np_divide_fl_exact frames_to_time_fl_exact interval_cv_of_fl_exact combine_fl_exact fl_exact
  by (rule refl)

section \<open>The downbeat estimator: claims C1, C5 and C9\<close>

text \<open>
  C1. The claim: an empty BeatFrames gives the empty sequence, and 1 to 3 beat frames
  give the single time of the first beat, \<open>frame_index * hop_length / sample_rate\<close>.
  The first half holds. For the second the source returns the first frame index
  itself: for \<open>BeatFrames = [10]\<close> at 22050 Hz and hop 512 the result is \<open>[10]\<close>,
  while the time of frame 10 is \<open>512 / 2205\<close> seconds.
\<close>

theorem estimate_downbeats_short:
  "estimate_downbeats [] b 22050 512 = []
   \<and> estimate_downbeats [10] b 22050 512 = [10]
   \<and> frames_to_time [10] 22050 512 = [512 / 2205]
   \<and> estimate_downbeats [10] b 22050 512 \<noteq> [frame_time 22050 512 10]"
  by (simp add: estimate_downbeats_def frames_to_time_def frame_time_def)

text \<open>
  C5. With at least 4 beat frames the estimator returns exactly the times of the
  beats at indices 0, 4, 8, ... in their original order; for 8 equally spaced beat
  frames these are the times of the 1st and the 5th beat. The sample rate is not
  zero (the conversion divides by it).
\<close>

theorem estimate_downbeats_every_fourth:
  "(4 \<le> length frames \<and> sr \<noteq> 0 \<longrightarrow>
      estimate_downbeats frames b sr hop =
        map (\<lambda>k. frame_time sr hop (frames ! (4 * k))) [0 ..< (length frames + 3) div 4])
   \<and> (sr \<noteq> 0 \<longrightarrow>
      estimate_downbeats [k, 2 * k, 3 * k, 4 * k, 5 * k, 6 * k, 7 * k, 8 * k] b sr hop =
        [frame_time sr hop k, frame_time sr hop (5 * k)])"
proof (intro conjI impI)
  assume "4 \<le> length frames \<and> sr \<noteq> 0"
  then show "estimate_downbeats frames b sr hop =
        map (\<lambda>k. frame_time sr hop (frames ! (4 * k))) [0 ..< (length frames + 3) div 4]"
    by (intro estimate_downbeats_ge4) simp
next
  assume "sr \<noteq> 0"
  have "[0 ..< 2] = [0, Suc 0]" by (simp add: upt_conv_Cons)
  then show "estimate_downbeats [k, 2 * k, 3 * k, 4 * k, 5 * k, 6 * k, 7 * k, 8 * k] b sr hop =
        [frame_time sr hop k, frame_time sr hop (5 * k)]"
    by (simp add: estimate_downbeats_def frames_to_time_def downbeat_indices_in_range Let_def)
qed

theorem estimate_downbeats_every_fourth_witness:
  "4 \<le> length [0, 43, 86, 129, 172 :: int] \<and> (22050 :: int) \<noteq> 0
   \<and> estimate_downbeats [0, 43, 86, 129, 172] 120 22050 512 = [0, 44032 / 11025]
   \<and> estimate_downbeats [43, 86, 129, 172, 215, 258, 301, 344] 120 22050 512 =
       [frame_time 22050 512 43, frame_time 22050 512 215]"
proof -
  have h: "4 \<le> length [0, 43, 86, 129, 172 :: int] \<and> (22050 :: int) \<noteq> 0" by simp
  have u: "[0 ..< 2] = [0, Suc 0]" by (simp add: upt_conv_Cons)
  note t = estimate_downbeats_every_fourth[of "[0, 43, 86, 129, 172]" 22050 120 512 43]
  from t h have "estimate_downbeats [0, 43, 86, 129, 172] 120 22050 512 =
     map (\<lambda>k. frame_time 22050 512 ([0, 43, 86, 129, 172] ! (4 * k))) [0 ..< (length [0, 43, 86, 129, 172 :: int] + 3) div 4]"
    by blast
  then have a: "estimate_downbeats [0, 43, 86, 129, 172] 120 22050 512 = [0, 44032 / 11025]"
    by (simp add: u frame_time_def)
  from t h have "estimate_downbeats [43, 2 * 43, 3 * 43, 4 * 43, 5 * 43, 6 * 43, 7 * 43, 8 * 43] 120 22050 512 =
       [frame_time 22050 512 43, frame_time 22050 512 (5 * 43)]"
    by blast
  then have b: "estimate_downbeats [43, 86, 129, 172, 215, 258, 301, 344] 120 22050 512 =
       [frame_time 22050 512 43, frame_time 22050 512 215]"
    by simp
  from h a b show ?thesis by blast
qed

text \<open>
  C9. The result of the downbeat estimator does not depend on its tempo argument.
\<close>

theorem estimate_downbeats_ignores_tempo:
  "estimate_downbeats frames b1 sr hop = estimate_downbeats frames b2 sr hop"
  by (simp add: estimate_downbeats_def)

section \<open>The confidence scorer: claims C3, C4, C6 and C10\<close>

text \<open>
  C4. With fewer than 4 beat frames the scorer returns exactly 0.3, whatever the onset
  curve holds. The edge checks come in this order, the first match deciding: fewer
  than 4 frames gives 0.3; fewer than 2 frames left by the bounds filter gives 0.4; a
  mean onset strength at the beat positions of exactly 0 gives 0.3. The second and
  third check work on \<open>bs\<close>, the strengths that the lookup of line 40 returned.
\<close>

theorem edge_checks_in_order:
  "(length bf < 4 \<longrightarrow> compute_confidence onset bf sr hop = Inr 0.3)
   \<and> (4 \<le> length bf \<and> beat_strengths_of onset bf = Inr bs \<and> length (bounds_filter onset bf) < 2
        \<longrightarrow> compute_confidence onset bf sr hop = Inr 0.4)
   \<and> (4 \<le> length bf \<and> beat_strengths_of onset bf = Inr bs \<and> 2 \<le> length (bounds_filter onset bf)
        \<and> np_mean bs = Inr 0
        \<longrightarrow> compute_confidence onset bf sr hop = Inr 0.3)"
proof (intro conjI impI)
  assume "length bf < 4"
  then show "compute_confidence onset bf sr hop = Inr 0.3"
    by (simp add: compute_confidence_def)
next
  assume a: "4 \<le> length bf \<and> beat_strengths_of onset bf = Inr bs \<and> length (bounds_filter onset bf) < 2"
  then have "length bs = length (bounds_filter onset bf)"
    by (intro beat_strengths_of_length) simp
  with a show "compute_confidence onset bf sr hop = Inr 0.4"
    by (simp add: compute_confidence_def)
next
  assume a: "4 \<le> length bf \<and> beat_strengths_of onset bf = Inr bs \<and> 2 \<le> length (bounds_filter onset bf)
        \<and> np_mean bs = Inr 0"
  then have l: "length bs = length (bounds_filter onset bf)"
    by (intro beat_strengths_of_length) simp
  with a have ne: "bs \<noteq> []" by auto
  obtain s where "np_std bs = Inr s" using np_std_nonempty[OF ne] by blast
  with a l show "compute_confidence onset bf sr hop = Inr 0.3"
    by (simp add: compute_confidence_def)
qed

theorem edge_checks_in_order_witness:
  "length [0, 1, 2 :: int] < 4
   \<and> compute_confidence [5] [0, 1, 2] 22050 512 = Inr 0.3
   \<and> 4 \<le> length [0, 1, 2, 3 :: int] \<and> beat_strengths_of [7] [0, 1, 2, 3] = Inr [7]
   \<and> length (bounds_filter [7] [0, 1, 2, 3]) < 2
   \<and> compute_confidence [7] [0, 1, 2, 3] 22050 512 = Inr 0.4
   \<and> beat_strengths_of [0, 0, 0, 0] [0, 1, 2, 3] = Inr [0, 0, 0, 0]
   \<and> 2 \<le> length (bounds_filter [0, 0, 0, 0] [0, 1, 2, 3])
   \<and> np_mean [0, 0, 0, 0] = Inr 0
   \<and> compute_confidence [0, 0, 0, 0] [0, 1, 2, 3] 22050 512 = Inr 0.3"
proof -
  have a: "length [0, 1, 2 :: int] < 4" by simp
  have b: "4 \<le> length [0, 1, 2, 3 :: int] \<and> beat_strengths_of [7] [0, 1, 2, 3] = Inr [7]
      \<and> length (bounds_filter [7] [0, 1, 2, 3]) < 2"
    by (simp add: beat_strengths_of_def bounds_filter_def np_index_def)
  have c: "4 \<le> length [0, 1, 2, 3 :: int]
      \<and> beat_strengths_of [0, 0, 0, 0] [0, 1, 2, 3] = Inr [0, 0, 0, 0]
      \<and> 2 \<le> length (bounds_filter [0, 0, 0, 0] [0, 1, 2, 3]) \<and> np_mean [0, 0, 0, 0] = Inr 0"
    by (simp add: beat_strengths_of_def bounds_filter_def np_index_def np_mean_def np_divide_def)
  from a edge_checks_in_order[of "[0, 1, 2]" "[5]" 22050 512]
  have ra: "compute_confidence [5] [0, 1, 2] 22050 512 = Inr 0.3" by blast
  from b edge_checks_in_order[of "[0, 1, 2, 3]" "[7]" 22050 512 "[7]"]
  have rb: "compute_confidence [7] [0, 1, 2, 3] 22050 512 = Inr 0.4" by blast
  from c edge_checks_in_order[of "[0, 1, 2, 3]" "[0, 0, 0, 0]" 22050 512 "[0, 0, 0, 0]"]
  have rc: "compute_confidence [0, 0, 0, 0] [0, 1, 2, 3] 22050 512 = Inr 0.3" by blast
  from a b c ra rb rc show ?thesis by blast
qed

text \<open>
  C3. For every onset curve and every sequence of beat frames (frame indices, so not
  negative) that passes the three edge checks, in every floating-point arithmetic,
  the returned confidence is
  \<open>round(0.4 * clamp(1 - cv_strength, 0.2, 1.0) + 0.6 * clamp(1 - cv_interval, 0.2, 1.0), 3)\<close>
  with \<open>cv_strength\<close> the standard deviation over the mean of the onset strengths at
  the beat frames within the bounds of the curve, and \<open>cv_interval\<close> that of the gaps
  between the times of all beat frames, taken as 1 for fewer than 2 beat times or a
  mean gap that is not positive.
\<close>

theorem compute_confidence_formula:
  assumes "\<forall>f\<in>set bf. 0 \<le> f" and "4 \<le> length bf"
    and "2 \<le> length (spec_strengths onset bf)"
    and "fl_mean A (spec_strengths onset bf) \<noteq> 0"
  shows "compute_confidence_fl A onset bf sr hop =
     Inr (spec_confidence_fl A (spec_strengths onset bf) (frames_to_time_fl A bf sr hop))"
proof -
  from assms(1) have bs: "beat_strengths_of onset bf = Inr (spec_strengths onset bf)"
    by (rule beat_strengths_of_nonneg)
  from assms(3) have ne: "spec_strengths onset bf \<noteq> []" by auto
  from assms(2,3,4) ne show ?thesis
    by (simp add: compute_confidence_fl_def bs np_mean_fl_def np_std_fl_def np_divide_fl_def
        interval_cv_of_fl_spec combine_fl_spec spec_confidence_fl_def spec_cv_strength_fl_def
        Let_def)
qed

theorem compute_confidence_formula_witness:
  "list_all (\<lambda>f. 0 \<le> f) [0, 1, 2, 3, 6, 9, 12 :: int]
   \<and> 4 \<le> length [0, 1, 2, 3, 6, 9, 12 :: int]
   \<and> spec_strengths [1, 2, 1, 2] [0, 1, 2, 3, 6, 9, 12] = [1, 2, 1, 2]
   \<and> fl_mean exact [1, 2, 1, 2] = 3 / 2
   \<and> spec_cv_strength_fl exact [1, 2, 1, 2] = 1 / 3
   \<and> spec_cv_interval_fl exact (frames_to_time_fl exact [0, 1, 2, 3, 6, 9, 12] 22050 512) = 1 / 2
   \<and> compute_confidence_fl exact [1, 2, 1, 2] [0, 1, 2, 3, 6, 9, 12] 22050 512 = Inr 0.567
   \<and> compute_confidence [1, 2, 1, 2] [0, 1, 2, 3, 6, 9, 12] 22050 512 = Inr 0.567"
proof -
  let ?onset = "[1, 2, 1, 2 :: real]"
  let ?bf = "[0, 1, 2, 3, 6, 9, 12 :: int]"
  let ?gaps = "[256 / 11025, 256 / 11025, 256 / 11025, 256 / 3675, 256 / 3675, 256 / 3675 :: real]"
  have h0: "list_all (\<lambda>f. 0 \<le> f) ?bf" by simp
  then have h1: "\<forall>f\<in>set ?bf. 0 \<le> f" by (simp only: list_all_iff)
  have h2: "4 \<le> length ?bf" by simp
  have st: "spec_strengths ?onset ?bf = ?onset" by (simp add: spec_strengths_def)
  have m: "fl_mean exact ?onset = 3 / 2" by (simp add: exact_def)
  have h3: "2 \<le> length (spec_strengths ?onset ?bf)" by (simp add: st)
  have h4: "fl_mean exact (spec_strengths ?onset ?bf) \<noteq> 0" by (simp add: st m)
  note t = compute_confidence_formula[OF h1 h2 h3 h4, of 22050 512]
  have q: "sqrt (1 / 4) = 1 / 2"
    by (rule real_sqrt_unique) (simp_all add: power2_eq_square)
  have sd: "fl_std exact ?onset = 1 / 2"
    by (simp add: exact_def power2_eq_square q)
  have cs: "spec_cv_strength_fl exact ?onset = 1 / 3"
    unfolding spec_cv_strength_fl_def sd m fl_exact by simp
  have g: "spec_gaps_fl exact (frames_to_time_fl exact ?bf 22050 512) = ?gaps"
    by (simp add: spec_gaps_fl_def frames_to_time_fl_def exact_def)
  have gm: "fl_mean exact ?gaps = 512 / 11025" by (simp add: exact_def)
  have sq: "sqrt (65536 / 121550625) = 256 / 11025"
    by (rule real_sqrt_unique) (simp_all add: power2_eq_square)
  have gs: "fl_std exact ?gaps = 256 / 11025"
    by (simp add: exact_def power2_eq_square sq)
  have len: "\<not> length (frames_to_time_fl exact ?bf 22050 512) < 2"
    by (simp add: frames_to_time_fl_def)
  have ci: "spec_cv_interval_fl exact (frames_to_time_fl exact ?bf 22050 512) = 1 / 2"
    unfolding spec_cv_interval_fl_def g gm gs fl_exact using len by simp
  have v: "spec_confidence_fl exact ?onset (frames_to_time_fl exact ?bf 22050 512) = 0.567"
    unfolding spec_confidence_fl_def cs ci fl_exact
    by (simp add: exact_def spec_clamp_def py_round_def round_half_even_def)
  from t have r: "compute_confidence_fl exact ?onset ?bf 22050 512 = Inr 0.567"
    unfolding st v .
  then have r': "compute_confidence ?onset ?bf 22050 512 = Inr 0.567"
    by (simp only: compute_confidence_fl_exact)
  from h0 h2 st m cs ci r r' show ?thesis by blast
qed

text \<open>
  C10. On the combined-score path the interval sub-score is computed from all beat
  frames, those at or beyond the length of the onset curve included: the strength
  part reads \<open>bs\<close>, the onset strengths at the frames that the bounds filter keeps,
  the interval part the gaps between the times of the whole of \<open>bf\<close>. The path is
  reached when the three edge checks pass; the sample rate is not zero.
\<close>

theorem interval_uses_all_frames:
  assumes "4 \<le> length bf" and "np_take onset (bounds_filter onset bf) = Inr bs"
    and "2 \<le> length bs" and "spec_mean bs \<noteq> 0" and "sr \<noteq> 0"
  shows "compute_confidence onset bf sr hop =
     Inr (combine (spec_cv_strength bs) (spec_cv_interval (map (frame_time sr hop) bf)))"
  unfolding spec_cv_strength_def
  using assms by (intro compute_confidence_combined) (simp_all add: beat_strengths_of_def)

theorem interval_uses_all_frames_witness:
  "4 \<le> length [0, 1, 2, 3, 6, 9, 12 :: int]
   \<and> bounds_filter [1, 1, 1, 1] [0, 1, 2, 3, 6, 9, 12] = [0, 1, 2, 3]
   \<and> np_take [1, 1, 1, 1] [0, 1, 2, 3] = Inr [1, 1, 1, 1]
   \<and> 2 \<le> length [1, 1, 1, 1 :: real]
   \<and> spec_mean [1, 1, 1, 1] = 1
   \<and> (22050 :: int) \<noteq> 0
   \<and> compute_confidence [1, 1, 1, 1] [0, 1, 2, 3, 6, 9, 12] 22050 512 = Inr 0.7
   \<and> compute_confidence [1, 1, 1, 1] [0, 1, 2, 3] 22050 512 = Inr 1"
proof -
  let ?onset = "[1, 1, 1, 1 :: real]"
  let ?bf = "[0, 1, 2, 3, 6, 9, 12 :: int]"
  let ?bs = "[1, 1, 1, 1 :: real]"
  have h1: "4 \<le> length ?bf" by simp
  have bfil: "bounds_filter ?onset ?bf = [0, 1, 2, 3]" by (simp add: bounds_filter_def)
  have tk: "np_take ?onset [0, 1, 2, 3] = Inr ?bs" by (simp add: np_index_def)
  have h2: "np_take ?onset (bounds_filter ?onset ?bf) = Inr ?bs" by (simp only: bfil tk)
  have h3: "2 \<le> length ?bs" by simp
  have m: "spec_mean ?bs = 1" by (simp add: spec_mean_def)
  have h4: "spec_mean ?bs \<noteq> 0" by (simp add: m)
  have h5: "(22050 :: int) \<noteq> 0" by simp
  note t = interval_uses_all_frames[OF h1 h2 h3 h4 h5, of 512]
  have cs: "spec_cv_strength ?bs = 0"
    by (simp add: spec_cv_strength_def spec_stddev_def spec_mean_def)
  have g: "spec_gaps (map (frame_time 22050 512) ?bf) =
      [256 / 11025, 256 / 11025, 256 / 11025, 256 / 3675, 256 / 3675, 256 / 3675]"
    by (simp add: spec_gaps_def frame_time_def)
  have gm: "spec_mean [256 / 11025, 256 / 11025, 256 / 11025, 256 / 3675, 256 / 3675, 256 / 3675] = 512 / 11025"
    by (simp add: spec_mean_def)
  have sq: "sqrt (65536 / 121550625) = 256 / 11025"
    by (rule real_sqrt_unique) (simp_all add: power2_eq_square)
  have gs: "spec_stddev [256 / 11025, 256 / 11025, 256 / 11025, 256 / 3675, 256 / 3675, 256 / 3675] = 256 / 11025"
    unfolding spec_stddev_def gm by (simp add: spec_mean_def power2_eq_square sq)
  have ci: "spec_cv_interval (map (frame_time 22050 512) ?bf) = 1 / 2"
    unfolding spec_cv_interval_def g gm gs by simp
  have cb: "combine 0 (1 / 2) = 0.7"
    by (simp add: combine_def py_round_def round_half_even_def)
  from t have r: "compute_confidence ?onset ?bf 22050 512 = Inr 0.7"
    unfolding cs ci cb .
  have r2: "compute_confidence ?onset [0, 1, 2, 3] 22050 512 = Inr 1"
    by (simp add: bounds_filter_def compute_confidence_def beat_strengths_of_def np_index_def
        np_mean_def np_std_def np_divide_def frames_to_time_def frame_time_def interval_cv_of_def
        combine_def py_round_def round_half_even_def)
  from h1 bfil tk h3 m h5 r r2 show ?thesis by blast
qed

text \<open>
  C6. The scorer is total and safe: for every onset curve (the empty one too) and
  every sequence of beat frames (the empty one too; beat frames are frame indices, so
  not negative), whatever the sample rate and the hop length, it returns a number in
  \<open>[0.2, 1.0]\<close>. No division of the scorer is by zero: that, or the mean of an empty
  array, would be the outcome \<open>Inl FloatingPointError\<close>.
\<close>

theorem compute_confidence_total:
  assumes "\<forall>f\<in>set bf. 0 \<le> f"
  shows "(\<exists>c. compute_confidence onset bf sr hop = Inr c \<and> 0.2 \<le> c \<and> c \<le> 1)
     \<and> compute_confidence onset bf sr hop \<noteq> Inl FloatingPointError"
proof -
  from assms have "\<forall>f\<in>set bf. - int (length onset) \<le> f" by auto
  then have "length bf < 4 \<or> (\<forall>f\<in>set bf. - int (length onset) \<le> f)" by (rule disjI2)
  then have "\<exists>c. compute_confidence onset bf sr hop = Inr c \<and> 0.2 \<le> c \<and> c \<le> 1"
    by (rule compute_confidence_returns)
  then show ?thesis by auto
qed

theorem compute_confidence_total_witness:
  "list_all (\<lambda>f. 0 \<le> f) [0, 1, 2, 3 :: int]
   \<and> (\<exists>c. compute_confidence [1, 1, 1, 1] [0, 1, 2, 3] 22050 512 = Inr c \<and> 0.2 \<le> c \<and> c \<le> 1)
   \<and> (\<exists>c. compute_confidence [] [0, 1, 2, 3] 22050 512 = Inr c \<and> 0.2 \<le> c \<and> c \<le> 1)
   \<and> (\<exists>c. compute_confidence [1, 1, 1, 1] [0, 1, 2, 3] 0 512 = Inr c \<and> 0.2 \<le> c \<and> c \<le> 1)
   \<and> list_all (\<lambda>f. 0 \<le> f) ([] :: int list)
   \<and> (\<exists>c. compute_confidence [] [] 22050 512 = Inr c \<and> 0.2 \<le> c \<and> c \<le> 1)
   \<and> compute_confidence [1, 1, 1, 1] [0, 1, 2, 3] 22050 512 \<noteq> Inl FloatingPointError"
proof -
  have a: "list_all (\<lambda>f. 0 \<le> f) [0, 1, 2, 3 :: int]" by simp
  then have a': "\<forall>f\<in>set [0, 1, 2, 3 :: int]. 0 \<le> f" by (simp only: list_all_iff)
  have e: "list_all (\<lambda>f. 0 \<le> f) ([] :: int list)" by simp
  then have e': "\<forall>f\<in>set ([] :: int list). 0 \<le> f" by (simp only: list_all_iff)
  note 1 = compute_confidence_total[OF a', of "[1, 1, 1, 1]" 22050 512]
  note 2 = compute_confidence_total[OF a', of "[]" 22050 512]
  note 3 = compute_confidence_total[OF a', of "[1, 1, 1, 1]" 0 512]
  note 4 = compute_confidence_total[OF e', of "[]" 22050 512]
  from a 1 2 3 e 4 show ?thesis by blast
qed

section \<open>The orchestrator and the boundary: claims C2, C7 and C8\<close>

text \<open>
  C2. The claim: in every assembled result \<open>downbeats\<close> is a subsequence of \<open>beats\<close>,
  with fewer than 4 beat frames too. With no beat frame or at least 4 it is
  (\<open>analysis_downbeats_subseq\<close> above). With 1 to 3 beat frames the downbeat is the
  first frame index where the beats are times: for the single beat frame 10 the
  result has \<open>beats = [0.2322]\<close> and \<open>downbeats = [10]\<close>.
\<close>

theorem analysis_single_beat:
  "analysis (Inr \<lparr>p_y = [], p_onset_env = [], p_tempo = Scalar 120, p_beat_frames = [10]\<rparr>) =
     Inr \<lparr>bpm = 120, confidence = 0.3, beats = [0.2322], downbeats = [10], duration = 0\<rparr>
   \<and> \<not> subseq [10 :: real] [0.2322]"
  by (simp add: analysis_def tempo_to_bpm_def frames_to_time_def frame_time_def
      compute_confidence_def estimate_downbeats_def get_duration_def py_round_def round_half_even_def)

text \<open>
  C7. The boundary fails in a fixed order: a missing file is the 404 failure
  whatever the extension; an extension outside \<open>{wav, mp3, flac, ogg, m4a, aac}\<close>,
  compared without regard to case, is the 400 failure; neither depends on the
  provider, so nothing is decoded for them. After that every exception of the
  pipeline becomes the one 500 failure that carries it, and a response is returned
  only when the whole pipeline has produced it.
\<close>

theorem analyze_audio_failures:
  "(\<not> path_exists \<longrightarrow>
      analyze_audio audio_path path_exists path_suffix provider =
        Inl (HTTPException 404 (NotFoundDetail audio_path)))
   \<and> (path_exists \<and> \<not> spec_supported path_suffix \<longrightarrow>
      analyze_audio audio_path path_exists path_suffix provider =
        Inl (HTTPException 400 (UnsupportedDetail path_suffix)))
   \<and> (path_exists \<and> spec_supported path_suffix \<and> analysis provider = Inl e \<longrightarrow>
      analyze_audio audio_path path_exists path_suffix provider =
        Inl (HTTPException 500 (AnalysisFailed e)))
   \<and> (path_exists \<and> spec_supported path_suffix \<and> analysis provider = Inr r \<longrightarrow>
      analyze_audio audio_path path_exists path_suffix provider = Inr r)
   \<and> (\<not> path_exists \<or> \<not> spec_supported path_suffix \<longrightarrow>
      analyze_audio audio_path path_exists path_suffix provider =
        analyze_audio audio_path path_exists path_suffix provider')"
  by (simp add: analyze_audio_def lower_accepted_iff)

theorem analyze_audio_failures_witness:
  "analyze_audio ''/music/a.wav'' False ''.wav'' (Inl (ProviderError ''decode failed'')) =
     Inl (HTTPException 404 (NotFoundDetail ''/music/a.wav''))
   \<and> \<not> spec_supported ''.xyz''
   \<and> analyze_audio ''/music/a.xyz'' True ''.xyz'' (Inl (ProviderError ''decode failed'')) =
     Inl (HTTPException 400 (UnsupportedDetail ''.xyz''))
   \<and> spec_supported ''.MP3''
   \<and> analysis (Inl (ProviderError ''decode failed'')) = Inl (ProviderError ''decode failed'')
   \<and> analyze_audio ''/music/a.MP3'' True ''.MP3'' (Inl (ProviderError ''decode failed'')) =
     Inl (HTTPException 500 (AnalysisFailed (ProviderError ''decode failed'')))
   \<and> analysis (Inr \<lparr>p_y = [0, 0], p_onset_env = [1], p_tempo = Scalar 120, p_beat_frames = []\<rparr>) =
     Inr \<lparr>bpm = 120, confidence = 0.3, beats = [], downbeats = [], duration = 0\<rparr>
   \<and> analyze_audio ''/music/a.MP3'' True ''.MP3''
       (Inr \<lparr>p_y = [0, 0], p_onset_env = [1], p_tempo = Scalar 120, p_beat_frames = []\<rparr>) =
     Inr \<lparr>bpm = 120, confidence = 0.3, beats = [], downbeats = [], duration = 0\<rparr>
   \<and> analyze_audio ''/music/a.xyz'' True ''.xyz'' (Inl (ProviderError ''decode failed'')) =
     analyze_audio ''/music/a.xyz'' True ''.xyz''
       (Inr \<lparr>p_y = [0, 0], p_onset_env = [1], p_tempo = Scalar 120, p_beat_frames = []\<rparr>)"
proof -
  let ?fail = "Inl (ProviderError ''decode failed'') :: exn + provider_result"
  let ?p = "\<lparr>p_y = [0, 0], p_onset_env = [1], p_tempo = Scalar 120, p_beat_frames = []\<rparr>"
  let ?r = "\<lparr>bpm = 120, confidence = 0.3, beats = [], downbeats = [], duration = 0\<rparr>"
  have x: "\<not> spec_supported ''.xyz''"
    by (simp add: spec_supported_def spec_extensions_def same_ignoring_case_def lower_char_def
        upper_to_lower_def)
  have m: "spec_supported ''.MP3''"
    by (simp add: spec_supported_def spec_extensions_def same_ignoring_case_def lower_char_def
        upper_to_lower_def)
  have f: "analysis ?fail = Inl (ProviderError ''decode failed'')"
    by (simp add: analysis_def)
  have s: "analysis (Inr ?p) = Inr ?r"
    by (simp add: analysis_def tempo_to_bpm_def frames_to_time_def compute_confidence_def
        estimate_downbeats_def get_duration_def py_round_def round_half_even_def)
  have 1: "analyze_audio ''/music/a.wav'' False ''.wav'' ?fail =
      Inl (HTTPException 404 (NotFoundDetail ''/music/a.wav''))"
    using analyze_audio_failures[of False "''/music/a.wav''" "''.wav''" ?fail] by blast
  have 2: "analyze_audio ''/music/a.xyz'' True ''.xyz'' ?fail =
      Inl (HTTPException 400 (UnsupportedDetail ''.xyz''))"
    using x analyze_audio_failures[of True "''/music/a.xyz''" "''.xyz''" ?fail] by blast
  have 3: "analyze_audio ''/music/a.MP3'' True ''.MP3'' ?fail =
      Inl (HTTPException 500 (AnalysisFailed (ProviderError ''decode failed'')))"
    using m f analyze_audio_failures[of True "''/music/a.MP3''" "''.MP3''" ?fail "ProviderError ''decode failed''"]
    by blast
  have 4: "analyze_audio ''/music/a.MP3'' True ''.MP3'' (Inr ?p) = Inr ?r"
    using m s analyze_audio_failures[of True "''/music/a.MP3''" "''.MP3''" "Inr ?p" _ ?r] by blast
  have 5: "analyze_audio ''/music/a.xyz'' True ''.xyz'' ?fail =
      analyze_audio ''/music/a.xyz'' True ''.xyz'' (Inr ?p)"
    using x analyze_audio_failures[of True "''/music/a.xyz''" "''.xyz''" ?fail _ _ "Inr ?p"] by blast
  from 1 x 2 m f 3 s 4 5 show ?thesis by blast
qed

text \<open>
  C8. For both shapes of the provider's raw tempo, a scalar \<open>t\<close> and a collection
  \<open>[t]\<close> of length 1, the tempo is normalised to \<open>t\<close>; the result reports \<open>t\<close>
  rounded to 2 decimals, the beat and downbeat times rounded to 4 decimals and the
  duration rounded to 3 decimals. The beat frames are such that the scorer's lookup
  does not raise (see C6).
\<close>

theorem analysis_rounds_result:
  assumes "p_tempo p = Scalar t \<or> p_tempo p = Array [t]"
    and "length (p_beat_frames p) < 4
         \<or> (\<forall>f\<in>set (p_beat_frames p). - int (length (p_onset_env p)) \<le> f)"
  shows "tempo_to_bpm (p_tempo p) = Inr t
     \<and> (\<exists>c. compute_confidence (p_onset_env p) (p_beat_frames p) 22050 512 = Inr c
            \<and> analysis (Inr p) =
                Inr \<lparr>bpm = py_round t 2,
                     confidence = c,
                     beats = map (\<lambda>x. py_round x 4) (map (frame_time 22050 512) (p_beat_frames p)),
                     downbeats = map (\<lambda>x. py_round x 4)
                                   (estimate_downbeats (p_beat_frames p) t 22050 512),
                     duration = py_round (get_duration (p_y p) 22050) 3\<rparr>)"
proof -
  from assms(1) have t: "tempo_to_bpm (p_tempo p) = Inr t"
    by (auto simp: tempo_to_bpm_shapes)
  obtain c where c: "compute_confidence (p_onset_env p) (p_beat_frames p) 22050 512 = Inr c"
    using compute_confidence_returns[OF assms(2)] by blast
  have "analysis (Inr p) =
      Inr \<lparr>bpm = py_round t 2, confidence = c,
           beats = map (\<lambda>x. py_round x 4) (map (frame_time 22050 512) (p_beat_frames p)),
           downbeats = map (\<lambda>x. py_round x 4) (estimate_downbeats (p_beat_frames p) t 22050 512),
           duration = py_round (get_duration (p_y p) 22050) 3\<rparr>"
    using t c by (simp add: analysis_def frames_to_time_def Let_def del: map_map)
  with t c show ?thesis by blast
qed

theorem analysis_rounds_result_witness:
  "analysis (Inr \<lparr>p_y = [0, 0, 0], p_onset_env = [], p_tempo = Array [123.456],
                 p_beat_frames = [0, 43, 86, 129, 172]\<rparr>) =
     Inr \<lparr>bpm = 123.46, confidence = 0.4, beats = [0, 0.9985, 1.9969, 2.9954, 3.9938],
          downbeats = [0, 3.9938], duration = 0\<rparr>
   \<and> analysis (Inr \<lparr>p_y = [0, 0, 0], p_onset_env = [], p_tempo = Scalar 123.456,
                 p_beat_frames = [0, 43, 86, 129, 172]\<rparr>) =
     Inr \<lparr>bpm = 123.46, confidence = 0.4, beats = [0, 0.9985, 1.9969, 2.9954, 3.9938],
          downbeats = [0, 3.9938], duration = 0\<rparr>"
proof -
  let ?bf = "[0, 43, 86, 129, 172 :: int]"
  let ?p = "\<lparr>p_y = [0, 0, 0], p_onset_env = [], p_tempo = Array [123.456], p_beat_frames = ?bf\<rparr>"
  let ?q = "\<lparr>p_y = [0, 0, 0], p_onset_env = [], p_tempo = Scalar 123.456, p_beat_frames = ?bf\<rparr>"
  have cc: "compute_confidence [] ?bf 22050 512 = Inr 0.4"
    by (simp add: compute_confidence_def beat_strengths_of_def bounds_filter_def)
  have u: "[0 ..< 2] = [0, Suc 0]" by (simp add: upt_conv_Cons)
  have ed: "estimate_downbeats ?bf b 22050 512 = [0, 44032 / 11025]" for b
    by (simp add: estimate_downbeats_def frames_to_time_def downbeat_indices_in_range u
        frame_time_def Let_def)
  have p1: "p_tempo ?p = Scalar 123.456 \<or> p_tempo ?p = Array [123.456]" by simp
  have q1: "p_tempo ?q = Scalar 123.456 \<or> p_tempo ?q = Array [123.456]" by simp
  have p2: "length (p_beat_frames ?p) < 4
      \<or> (\<forall>f\<in>set (p_beat_frames ?p). - int (length (p_onset_env ?p)) \<le> f)" by simp
  have q2: "length (p_beat_frames ?q) < 4
      \<or> (\<forall>f\<in>set (p_beat_frames ?q). - int (length (p_onset_env ?q)) \<le> f)" by simp
  from analysis_rounds_result[OF p1 p2] obtain c
    where "compute_confidence (p_onset_env ?p) (p_beat_frames ?p) 22050 512 = Inr c"
      and a: "analysis (Inr ?p) =
        Inr \<lparr>bpm = py_round 123.456 2, confidence = c,
             beats = map (\<lambda>x. py_round x 4) (map (frame_time 22050 512) (p_beat_frames ?p)),
             downbeats = map (\<lambda>x. py_round x 4) (estimate_downbeats (p_beat_frames ?p) 123.456 22050 512),
             duration = py_round (get_duration (p_y ?p) 22050) 3\<rparr>"
    by blast
  then have "c = 0.4" using cc by simp
  with a have ra: "analysis (Inr ?p) =
     Inr \<lparr>bpm = 123.46, confidence = 0.4, beats = [0, 0.9985, 1.9969, 2.9954, 3.9938],
          downbeats = [0, 3.9938], duration = 0\<rparr>"
    by (simp add: ed py_round_def round_half_even_def frame_time_def get_duration_def)
  from analysis_rounds_result[OF q1 q2] obtain c'
    where "compute_confidence (p_onset_env ?q) (p_beat_frames ?q) 22050 512 = Inr c'"
      and b: "analysis (Inr ?q) =
        Inr \<lparr>bpm = py_round 123.456 2, confidence = c',
             beats = map (\<lambda>x. py_round x 4) (map (frame_time 22050 512) (p_beat_frames ?q)),
             downbeats = map (\<lambda>x. py_round x 4) (estimate_downbeats (p_beat_frames ?q) 123.456 22050 512),
             duration = py_round (get_duration (p_y ?q) 22050) 3\<rparr>"
    by blast
  then have "c' = 0.4" using cc by simp
  with b have rb: "analysis (Inr ?q) =
     Inr \<lparr>bpm = 123.46, confidence = 0.4, beats = [0, 0.9985, 1.9969, 2.9954, 3.9938],
          downbeats = [0, 3.9938], duration = 0\<rparr>"
    by (simp add: ed py_round_def round_half_even_def frame_time_def get_duration_def)
  from ra rb show ?thesis by blast
qed

end
